theory Spec2Isabelle
  imports Main "HOL-Library.AList" "HOL-Library.Sublist"
begin

section \<open>JSON values as the JavaScript code sees them\<close>

text \<open>
  The server keeps its records in \<^verbatim>\<open>public/data/assessments.json\<close> and works on
  what \<^verbatim>\<open>JSON.parse\<close> returns. An object is an association list of its
  properties in the order of their creation (JavaScript lists array-index names first;
  the statements below compare objects and never ask for that order). A property that
  is not there reads as \<^verbatim>\<open>undefined\<close>, which is \<open>None\<close> in a \<open>json option\<close>.
  The program never computes with a number of a record: it tests it for truth and prints
  it. So a number is kept as the string that \<^verbatim>\<open>Number.prototype.toString\<close> gives
  for it (\<^verbatim>\<open>12\<close>, \<^verbatim>\<open>-0.5\<close>, \<^verbatim>\<open>1152921504606847000\<close>, \<^verbatim>\<open>1e+21\<close>), which
  tells two numbers apart; both zeros print as \<^verbatim>\<open>0\<close>.
\<close>

datatype json =
    JNull
  | JBool bool
  | JNum string
  | JStr string
  | JArr "json list"
  | JObj "(string \<times> json) list"

text \<open>What a handler's \<^verbatim>\<open>try\<close> block can catch.\<close>

datatype error = TypeError | SyntaxError | IOError

definition bind_e :: "error + 'a \<Rightarrow> ('a \<Rightarrow> error + 'b) \<Rightarrow> error + 'b" where
  "bind_e m f = (case m of Inl e \<Rightarrow> Inl e | Inr x \<Rightarrow> f x)"

text \<open>
  \<^verbatim>\<open>v.k\<close> for the property names the program reads, the fields of a record
  (\<^verbatim>\<open>id\<close>, \<^verbatim>\<open>processName\<close>, \<^verbatim>\<open>content\<close>, \<^verbatim>\<open>status\<close>, \<^verbatim>\<open>location\<close>
  and the other columns of the table): an object yields its own property, any other
  value has none of these names, and reading a property of \<^verbatim>\<open>null\<close> throws.
\<close>

definition property :: "json \<Rightarrow> string \<Rightarrow> json option" where
  "property v k = (case v of JObj kvs \<Rightarrow> map_of kvs k | _ \<Rightarrow> None)"

definition member :: "json \<Rightarrow> string \<Rightarrow> error + json option" where
  "member v k = (if v = JNull then Inl TypeError else Inr (property v k))"

text \<open>JavaScript truthiness, as \<^verbatim>\<open>!x\<close> tests it.\<close>

fun truthy :: "json option \<Rightarrow> bool" where
  "truthy None = False"
| "truthy (Some JNull) = False"
| "truthy (Some (JBool b)) = b"
| "truthy (Some (JNum printed)) = (printed \<noteq> ''0'')"
| "truthy (Some (JStr s)) = (s \<noteq> [])"
| "truthy (Some (JArr xs)) = True"
| "truthy (Some (JObj kvs)) = True"

text \<open>
  \<^verbatim>\<open>o.k = x\<close> on an object: an existing property keeps its place, a new one goes
  last. Only an object reaches the assignments of the POST handler (a value with a
  truthy \<^verbatim>\<open>processName\<close> is one, see \<open>truthy_property_obj\<close>); on a primitive
  the assignment does nothing.
\<close>

definition assign :: "json \<Rightarrow> string \<Rightarrow> json \<Rightarrow> json" where
  "assign v k x = (case v of JObj kvs \<Rightarrow> JObj (AList.update k x kvs) | _ \<Rightarrow> v)"

text \<open>
  The own properties that \<^verbatim>\<open>{...v}\<close> copies, and the copying itself: each property
  is set on the target in turn. The PUT handler spreads two objects, the record that
  \<^verbatim>\<open>findIndex\<close> found and the validated body; a primitive has nothing to copy.
\<close>

definition own_props :: "json \<Rightarrow> (string \<times> json) list" where
  "own_props v = (case v of JObj kvs \<Rightarrow> kvs | _ \<Rightarrow> [])"

definition spread :: "(string \<times> json) list \<Rightarrow> (string \<times> json) list \<Rightarrow> (string \<times> json) list" where
  "spread target src = fold (\<lambda>(k, x) acc. AList.update k x acc) src target"

text \<open>\<^verbatim>\<open>Number.prototype.toString\<close> on a non-negative integer: its decimal digits.\<close>

definition digit :: "nat \<Rightarrow> char" where
  "digit d = ''0123456789'' ! d"

function dec :: "nat \<Rightarrow> string" where
  "dec n = (if n < 10 then [digit n] else dec (n div 10) @ [digit (n mod 10)])"
  by pat_completeness auto
termination
  by (relation "measure id") auto

declare dec.simps [simp del]

section \<open>The file store\<close>

datatype path = AssessmentsJson | RfisJson

text \<open>
  A file is missing (\<^verbatim>\<open>ENOENT\<close>), unreadable for another reason, holds text that
  \<^verbatim>\<open>JSON.parse\<close> rejects, or holds the text of a JSON value; the text itself is
  not modelled, \<^verbatim>\<open>JSON.stringify\<close> followed by \<^verbatim>\<open>JSON.parse\<close> gives the value
  back. \<open>writable\<close> says whether \<^verbatim>\<open>fs.writeFile\<close> succeeds.
\<close>

datatype file_state = Missing | Unreadable | Malformed | Holds json

record disk =
  files :: "path \<Rightarrow> file_state"
  writable :: bool

definition readJsonFile :: "disk \<Rightarrow> path \<Rightarrow> error + json" where
  "readJsonFile d p =
     (case files d p of
        Missing \<Rightarrow> Inr (JArr [])
      | Unreadable \<Rightarrow> Inl IOError
      | Malformed \<Rightarrow> Inl SyntaxError
      | Holds v \<Rightarrow> Inr v)"

definition writeJsonFile :: "disk \<Rightarrow> path \<Rightarrow> json \<Rightarrow> error + disk" where
  "writeJsonFile d p v =
     (if writable d then Inr (d\<lparr>files := (files d)(p := Holds v)\<rparr>) else Inl IOError)"

section \<open>The HTTP handlers\<close>

datatype response = Response (status_code: nat) (payload: json)

definition error_body :: "string \<Rightarrow> json" where
  "error_body msg = JObj [(''error'', JStr msg)]"

text \<open>\<^verbatim>\<open>!body.processName || !body.status\<close>\<close>

definition missing_required :: "json \<Rightarrow> error + bool" where
  "missing_required body =
     bind_e (member body ''processName'') (\<lambda>p.
       if \<not> truthy p then Inr True
       else bind_e (member body ''status'') (\<lambda>s. Inr (\<not> truthy s)))"

text \<open>
  \<^verbatim>\<open>assessments.push(x)\<close> and the elements that \<^verbatim>\<open>assessments.findIndex\<close>
  walks: only an array has the two methods, on any other value the call throws.
\<close>

definition push :: "json \<Rightarrow> json \<Rightarrow> error + json" where
  "push arr x = (case arr of JArr xs \<Rightarrow> Inr (JArr (xs @ [x])) | _ \<Rightarrow> Inl TypeError)"

definition elements :: "json \<Rightarrow> error + json list" where
  "elements arr = (case arr of JArr xs \<Rightarrow> Inr xs | _ \<Rightarrow> Inl TypeError)"

text \<open>
  \<^verbatim>\<open>Array.prototype.findIndex\<close> with a callback that may throw; \<open>None\<close> is
  the \<^verbatim>\<open>-1\<close> of the source.
\<close>

fun findIndex :: "('a \<Rightarrow> error + bool) \<Rightarrow> 'a list \<Rightarrow> error + nat option" where
  "findIndex p [] = Inr None"
| "findIndex p (a # as) =
     (case p a of
        Inl e \<Rightarrow> Inl e
      | Inr True \<Rightarrow> Inr (Some 0)
      | Inr False \<Rightarrow> bind_e (findIndex p as) (\<lambda>r. Inr (map_option Suc r)))"

text \<open>\<^verbatim>\<open>a => a.id === assessmentId\<close>\<close>

definition has_id :: "string \<Rightarrow> json \<Rightarrow> error + bool" where
  "has_id assessmentId a = bind_e (member a ''id'') (\<lambda>v. Inr (v = Some (JStr assessmentId)))"

text \<open>\<^verbatim>\<open>GET /api/assessments\<close> of the server that defines \<^verbatim>\<open>readJsonFile\<close>.\<close>

definition get_assessments :: "disk \<Rightarrow> response" where
  "get_assessments d =
     (case readJsonFile d AssessmentsJson of
        Inr assessments \<Rightarrow> Response 200 assessments
      | Inl e \<Rightarrow> Response 500 (error_body ''Failed to retrieve assessments''))"

text \<open>
  \<^verbatim>\<open>POST /api/assessments\<close>. \<open>now\<close> is the value of \<^verbatim>\<open>Date.now()\<close>, \<open>day1\<close> and
  \<open>day2\<close> are the two readings of \<^verbatim>\<open>new Date().toISOString().split('T')[0]\<close>.
  \<open>stamp\<close> is the three assignments to the new record, \<open>post_try\<close> the body
  of the \<^verbatim>\<open>try\<close>, and \<open>post_assessments\<close> adds the \<^verbatim>\<open>catch\<close>.
\<close>

definition stamp :: "json \<Rightarrow> nat \<Rightarrow> string \<Rightarrow> string \<Rightarrow> json" where
  "stamp newAssessment now day1 day2 =
     assign (assign (assign newAssessment ''id'' (JStr (dec now)))
       ''createdDate'' (JStr day1)) ''lastModified'' (JStr day2)"

definition post_try :: "disk \<Rightarrow> json \<Rightarrow> nat \<Rightarrow> string \<Rightarrow> string \<Rightarrow> error + disk \<times> response" where
  "post_try d newAssessment now day1 day2 =
     bind_e (missing_required newAssessment) (\<lambda>bad.
       if bad then Inr (d, Response 400 (error_body ''Process Name and Status are required.''))
       else
         bind_e (readJsonFile d AssessmentsJson) (\<lambda>assessments.
           let stored = stamp newAssessment now day1 day2
           in bind_e (push assessments stored) (\<lambda>assessments'.
                bind_e (writeJsonFile d AssessmentsJson assessments') (\<lambda>d'.
                  Inr (d', Response 201 stored)))))"

definition post_assessments :: "disk \<Rightarrow> json \<Rightarrow> nat \<Rightarrow> string \<Rightarrow> string \<Rightarrow> disk \<times> response" where
  "post_assessments d newAssessment now day1 day2 =
     (case post_try d newAssessment now day1 day2 of
        Inr r \<Rightarrow> r
      | Inl e \<Rightarrow> (d, Response 500 (error_body ''Failed to create assessment'')))"

text \<open>
  \<^verbatim>\<open>PUT /api/assessments/:id\<close>. \<open>today\<close> is the reading of
  \<^verbatim>\<open>new Date().toISOString().split('T')[0]\<close>. The object literal copies the stored
  record, then the request body, then sets \<^verbatim>\<open>id\<close> and \<^verbatim>\<open>lastModified\<close>.
\<close>

definition merged_record :: "json \<Rightarrow> json \<Rightarrow> string \<Rightarrow> string \<Rightarrow> json" where
  "merged_record old updatedAssessmentData assessmentId today =
     JObj (AList.update ''lastModified'' (JStr today)
            (AList.update ''id'' (JStr assessmentId)
              (spread (spread [] (own_props old)) (own_props updatedAssessmentData))))"

definition put_try :: "disk \<Rightarrow> string \<Rightarrow> json \<Rightarrow> string \<Rightarrow> error + disk \<times> response" where
  "put_try d assessmentId updatedAssessmentData today =
     bind_e (missing_required updatedAssessmentData) (\<lambda>bad.
       if bad then Inr (d, Response 400 (error_body ''Process Name and Status are required.''))
       else
         bind_e (readJsonFile d AssessmentsJson) (\<lambda>assessments.
         bind_e (elements assessments) (\<lambda>xs.
         bind_e (findIndex (has_id assessmentId) xs) (\<lambda>index.
           case index of
             None \<Rightarrow> Inr (d, Response 404 (error_body ''Assessment not found''))
           | Some i \<Rightarrow>
               let xs' = xs[i := merged_record (xs ! i) updatedAssessmentData assessmentId today]
               in bind_e (writeJsonFile d AssessmentsJson (JArr xs')) (\<lambda>d'.
                    Inr (d', Response 200 (xs' ! i)))))))"

definition put_assessments :: "disk \<Rightarrow> string \<Rightarrow> json \<Rightarrow> string \<Rightarrow> disk \<times> response" where
  "put_assessments d assessmentId updatedAssessmentData today =
     (case put_try d assessmentId updatedAssessmentData today of
        Inr r \<Rightarrow> r
      | Inl e \<Rightarrow> (d, Response 500 (error_body ''Failed to update assessment'')))"

section \<open>The client table\<close>

text \<open>
  A string is a sequence of characters with codes below 256. \<^verbatim>\<open>toLowerCase\<close> maps
  the capital letters of that range (A to Z, and U+00C0 to U+00DE without the
  multiplication sign) to their small letters; \<^verbatim>\<open>trim\<close> removes the white space of
  that range (tab, line feed, vertical tab, form feed, carriage return, space, no-break
  space) from both ends.
\<close>

definition capitals :: string where
  "capitals = ''ABCDEFGHIJKLMNOPQRSTUVWXYZ'' @
     [CHR 0xC0, CHR 0xC1, CHR 0xC2, CHR 0xC3, CHR 0xC4, CHR 0xC5, CHR 0xC6, CHR 0xC7,
      CHR 0xC8, CHR 0xC9, CHR 0xCA, CHR 0xCB, CHR 0xCC, CHR 0xCD, CHR 0xCE, CHR 0xCF,
      CHR 0xD0, CHR 0xD1, CHR 0xD2, CHR 0xD3, CHR 0xD4, CHR 0xD5, CHR 0xD6,
      CHR 0xD8, CHR 0xD9, CHR 0xDA, CHR 0xDB, CHR 0xDC, CHR 0xDD, CHR 0xDE]"

definition smalls :: string where
  "smalls = ''abcdefghijklmnopqrstuvwxyz'' @
     [CHR 0xE0, CHR 0xE1, CHR 0xE2, CHR 0xE3, CHR 0xE4, CHR 0xE5, CHR 0xE6, CHR 0xE7,
      CHR 0xE8, CHR 0xE9, CHR 0xEA, CHR 0xEB, CHR 0xEC, CHR 0xED, CHR 0xEE, CHR 0xEF,
      CHR 0xF0, CHR 0xF1, CHR 0xF2, CHR 0xF3, CHR 0xF4, CHR 0xF5, CHR 0xF6,
      CHR 0xF8, CHR 0xF9, CHR 0xFA, CHR 0xFB, CHR 0xFC, CHR 0xFD, CHR 0xFE]"

definition lower_char :: "char \<Rightarrow> char" where
  "lower_char c = (case map_of (zip capitals smalls) c of Some l \<Rightarrow> l | None \<Rightarrow> c)"

definition toLowerCase :: "string \<Rightarrow> string" where
  "toLowerCase s = map lower_char s"

definition is_space :: "char \<Rightarrow> bool" where
  "is_space c = (c \<in> set [CHR 0x09, CHR 0x0A, CHR 0x0B, CHR 0x0C, CHR 0x0D, CHR 0x20, CHR 0xA0])"

definition trim :: "string \<Rightarrow> string" where
  "trim s = rev (dropWhile is_space (rev (dropWhile is_space s)))"

text \<open>\<^verbatim>\<open>Array.prototype.join\<close> on strings.\<close>

fun join :: "string \<Rightarrow> string list \<Rightarrow> string" where
  "join sep [] = []"
| "join sep [x] = x"
| "join sep (x # y # ys) = x @ sep @ join sep (y # ys)"

text \<open>The results of a list of steps, or the first error among them.\<close>

fun collect :: "(error + 'a) list \<Rightarrow> error + 'a list" where
  "collect [] = Inr []"
| "collect (r # rs) = bind_e r (\<lambda>x. bind_e (collect rs) (\<lambda>xs. Inr (x # xs)))"

text \<open>
  The string of a value, as \<^verbatim>\<open>toString()\<close> and a template literal produce it. An
  array joins its elements with a comma, \<^verbatim>\<open>null\<close> elements as the empty string. An
  object is \<^verbatim>\<open>[object Object]\<close>, unless it has a property \<^verbatim>\<open>toString\<close> of its
  own: that shadows the method with a JSON value, and calling it throws.
\<close>

fun js_string :: "json \<Rightarrow> error + string" where
  "js_string JNull = Inr ''null''"
| "js_string (JBool b) = Inr (if b then ''true'' else ''false'')"
| "js_string (JNum printed) = Inr printed"
| "js_string (JStr s) = Inr s"
| "js_string (JArr xs) =
     bind_e (collect (map (\<lambda>x. if x = JNull then Inr [] else js_string x) xs))
       (\<lambda>parts. Inr (join '','' parts))"
| "js_string (JObj kvs) =
     (case map_of kvs ''toString'' of
        None \<Rightarrow> Inr ''[object Object]''
      | Some f \<Rightarrow> Inl TypeError)"

text \<open>\<^verbatim>\<open>(s ?? "").toString().toLowerCase().trim()\<close>\<close>

definition nullish_or :: "json option \<Rightarrow> json \<Rightarrow> json" where
  "nullish_or s dflt = (case s of None \<Rightarrow> dflt | Some JNull \<Rightarrow> dflt | Some v \<Rightarrow> v)"

definition normalize_js :: "json option \<Rightarrow> error + string" where
  "normalize_js s = bind_e (js_string (nullish_or s (JStr []))) (\<lambda>t. Inr (trim (toLowerCase t)))"

text \<open>\<^verbatim>\<open>String.prototype.includes\<close>\<close>

fun includes_js :: "string \<Rightarrow> string \<Rightarrow> bool" where
  "includes_js [] k = (k = [])"
| "includes_js (c # cs) k = (prefix k (c # cs) \<or> includes_js cs k)"

text \<open>
  \<open>keyword\<close> is the value of the search box, a string. The three properties are read
  first, then normalised in order, then joined.
\<close>

definition matchesKeyword :: "json \<Rightarrow> string \<Rightarrow> error + bool" where
  "matchesKeyword a keyword =
     bind_e (normalize_js (Some (JStr keyword))) (\<lambda>k.
       if k = [] then Inr True
       else
         bind_e (member a ''processName'') (\<lambda>p.
         bind_e (member a ''content'') (\<lambda>c.
         bind_e (member a ''location'') (\<lambda>l.
         bind_e (collect (map normalize_js [p, c, l])) (\<lambda>parts.
           let haystack = join '' | '' parts
           in Inr (includes_js haystack k))))))"

text \<open>\<^verbatim>\<open>Array.prototype.filter\<close> with a callback that may throw.\<close>

fun filter_js :: "('a \<Rightarrow> error + bool) \<Rightarrow> 'a list \<Rightarrow> error + 'a list" where
  "filter_js p [] = Inr []"
| "filter_js p (a # as) =
     bind_e (p a) (\<lambda>keep.
       bind_e (filter_js p as) (\<lambda>rest. Inr (if keep then a # rest else rest)))"

text \<open>The search box's listener: \<^verbatim>\<open>allRows.filter(a => matchesKeyword(a, kw))\<close>.\<close>

definition search_rows :: "json list \<Rightarrow> string \<Rightarrow> error + json list" where
  "search_rows allRows kw = filter_js (\<lambda>a. matchesKeyword a kw) allRows"

text \<open>
  \<^verbatim>\<open>renderTable\<close> writes each row as HTML text and hands it to
  \<^verbatim>\<open>tr.innerHTML\<close>. The model is that text, character for character: the values
  are pasted in as the template literal pastes them, with no escaping. \<open>template\<close> is
  the string a template literal makes of a value, \<open>dq\<close> the double quote, and the
  ellipsis U+2026, which lies outside the range of characters, is written as its three
  UTF-8 bytes.
\<close>

definition template :: "json option \<Rightarrow> error + string" where
  "template v = (case v of None \<Rightarrow> Inr ''undefined'' | Some x \<Rightarrow> js_string x)"

definition dq :: string where
  "dq = [CHR 0x22]"

definition attr :: "string \<Rightarrow> string \<Rightarrow> string" where
  "attr name v = name @ ''='' @ dq @ v @ dq"

definition ellipsis :: string where
  "ellipsis = [CHR 0xE2, CHR 0x80, CHR 0xA6]"

definition indent6 :: string where
  "indent6 = CHR 0x0A # ''      ''"

definition indent8 :: string where
  "indent8 = CHR 0x0A # ''        ''"

text \<open>\<^verbatim>\<open>${a.k ?? ""}\<close>\<close>

definition cell_text :: "json \<Rightarrow> string \<Rightarrow> error + string" where
  "cell_text a k = bind_e (member a k) (\<lambda>v. template (Some (nullish_or v (JStr []))))"

text \<open>
  \<^verbatim>\<open>x.slice(0, 40)\<close> and \<^verbatim>\<open>x.length > 40\<close> for the content of a row: a string and
  an array have the method, on any other value the call throws.
\<close>

definition slice40 :: "json \<Rightarrow> error + json" where
  "slice40 x =
     (case x of
        JStr s \<Rightarrow> Inr (JStr (take 40 s))
      | JArr xs \<Rightarrow> Inr (JArr (take 40 xs))
      | _ \<Rightarrow> Inl TypeError)"

definition longer_than_40 :: "json \<Rightarrow> bool" where
  "longer_than_40 x =
     (case x of JStr s \<Rightarrow> 40 < length s | JArr xs \<Rightarrow> 40 < length xs | _ \<Rightarrow> False)"

text \<open>
  One button of the actions cell. \<open>flag\<close> is what the template puts between the
  \<^verbatim>\<open>data-id\<close> attribute and the closing bracket of the tag.
\<close>

definition button_html :: "string \<Rightarrow> string \<Rightarrow> string \<Rightarrow> string \<Rightarrow> string" where
  "button_html act data_id flag caption =
     ''<button '' @ attr ''class'' ''btn'' @ '' '' @ attr ''data-action'' act @ '' ''
       @ attr ''data-id'' data_id @ flag @ ''>'' @ caption @ ''</button>''"

definition row_html :: "json \<Rightarrow> error + string" where
  "row_html a =
     bind_e (member a ''id'') (\<lambda>i.
     bind_e (template i) (\<lambda>data_id.
     bind_e (cell_text a ''processName'') (\<lambda>name.
     bind_e (member a ''content'') (\<lambda>c.
     bind_e (template (Some (nullish_or c (JStr [])))) (\<lambda>title.
     bind_e (slice40 (nullish_or c (JStr []))) (\<lambda>cut.
     bind_e (template (Some cut)) (\<lambda>preview.
     bind_e (collect (map (cell_text a)
               [''informationController'', ''medium'', ''location'', ''securityClassification'',
                ''pib'', ''fctFunction'', ''fctActivity'', ''status'', ''lastUpdated''])) (\<lambda>cells.
     bind_e (member a ''status'') (\<lambda>s.
       Inr (indent6 @ ''<td><a '' @ attr ''href'' ''#'' @ '' '' @ attr ''data-id'' data_id @ '' ''
              @ attr ''class'' ''viewLink'' @ ''>'' @ name @ ''</a></td>''
            @ indent6 @ ''<td '' @ attr ''title'' title @ ''>'' @ preview
              @ (if longer_than_40 (nullish_or c (JStr [])) then ellipsis else []) @ ''</td>''
            @ concat (map (\<lambda>cell. indent6 @ ''<td>'' @ cell @ ''</td>'') cells)
            @ indent6 @ ''<td '' @ attr ''class'' ''actions'' @ ''>''
            @ indent8 @ button_html ''view'' data_id [] ''View''
            @ indent8 @ button_html ''edit'' data_id
                ('' '' @ (if s = Some (JStr ''Approved'') then ''disabled'' else [])) ''Edit''
            @ indent8 @ button_html ''submit'' data_id
                ('' '' @ (if s = Some (JStr ''Draft'') then [] else ''disabled'')) ''Submit''
            @ indent6 @ ''</td>'' @ CHR 0x0A # ''    ''))))))))))"

text \<open>
  The table body is the list of the texts of its rows. The loop appends row after row;
  when a row throws, the rows before it stay and the error leaves \<^verbatim>\<open>renderTable\<close>.
\<close>

definition no_results_html :: string where
  "no_results_html =
     ''<td '' @ attr ''colspan'' ''12'' @ '' '' @ attr ''style'' ''padding: 12px;'' @ ''>No results.</td>''"

fun append_rows :: "string list \<Rightarrow> json list \<Rightarrow> string list \<times> error option" where
  "append_rows tbody [] = (tbody, None)"
| "append_rows tbody (a # as) =
     (case row_html a of
        Inl e \<Rightarrow> (tbody, Some e)
      | Inr tr \<Rightarrow> append_rows (tbody @ [tr]) as)"

definition renderTable :: "json list \<Rightarrow> string list \<times> error option" where
  "renderTable rows = (if rows = [] then ([no_results_html], None) else append_rows [] rows)"

section \<open>The filter as the specification words it\<close>

text \<open>
  The text of a field of a row: the string it holds, and nothing when the field is
  absent or \<^verbatim>\<open>null\<close>. A row for the search is a value other than \<^verbatim>\<open>null\<close> whose
  process name, content and location are such text.
\<close>

definition field_text :: "json \<Rightarrow> string \<Rightarrow> string" where
  "field_text a k = (case property a k of Some (JStr s) \<Rightarrow> s | _ \<Rightarrow> [])"

definition is_text :: "json option \<Rightarrow> bool" where
  "is_text v = (case v of None \<Rightarrow> True | Some JNull \<Rightarrow> True | Some (JStr s) \<Rightarrow> True | _ \<Rightarrow> False)"

definition text_row :: "json \<Rightarrow> bool" where
  "text_row a =
     (a \<noteq> JNull \<and> is_text (property a ''processName'') \<and> is_text (property a ''content'')
      \<and> is_text (property a ''location''))"

text \<open>
  The specification's sentence, to compare with \<open>matchesKeyword\<close>: a row is kept when
  the keyword is empty or the lowercased keyword is a substring of the lowercased
  concatenation of the row's process name, content and location. \<open>sep\<close> is what
  stands between the fields in the concatenation.
\<close>

definition spec_matches :: "string \<Rightarrow> json \<Rightarrow> string \<Rightarrow> bool" where
  "spec_matches sep a keyword =
     (keyword = [] \<or>
      includes_js
        (toLowerCase (join sep (map (field_text a) [''processName'', ''content'', ''location''])))
        (toLowerCase keyword))"

text \<open>The two rows of the specification's example.\<close>

definition alpha_row :: json where
  "alpha_row = JObj [(''processName'', JStr ''Alpha''), (''content'', JStr ''x''), (''location'', JStr ''Calgary'')]"

definition beta_row :: json where
  "beta_row = JObj [(''processName'', JStr ''Beta''), (''content'', JStr ''y''), (''location'', JStr ''Red Deer'')]"

section \<open>Concrete stores and requests\<close>

text \<open>Inputs at which the theorems below are exercised.\<close>

definition empty_disk :: disk where
  "empty_disk = \<lparr>files = (\<lambda>p. Missing), writable = True\<rparr>"

definition payroll_body :: json where
  "payroll_body = JObj [(''processName'', JStr ''Payroll Export''), (''status'', JStr ''Draft'')]"

definition original_record :: json where
  "original_record =
     JObj [(''id'', JStr ''1''), (''processName'', JStr ''Payroll Export''), (''status'', JStr ''Draft''),
           (''createdDate'', JStr ''2024-01-01''), (''lastModified'', JStr ''2024-01-01'')]"

definition other_record :: json where
  "other_record =
     JObj [(''id'', JStr ''7''), (''processName'', JStr ''Exam Booking''), (''status'', JStr ''Approved''),
           (''createdDate'', JStr ''2023-05-17''), (''lastModified'', JStr ''2023-06-01'')]"

definition sample_disk :: disk where
  "sample_disk =
     \<lparr>files = (\<lambda>p. Missing)(AssessmentsJson := Holds (JArr [other_record, original_record])),
      writable = True\<rparr>"

definition backdated_body :: json where
  "backdated_body =
     JObj [(''processName'', JStr ''Payroll Export''), (''status'', JStr ''In Review''),
           (''createdDate'', JStr ''1999-12-31'')]"

definition updated_record :: json where
  "updated_record =
     JObj [(''id'', JStr ''1''), (''processName'', JStr ''Payroll Export''),
           (''status'', JStr ''In Review''), (''createdDate'', JStr ''1999-12-31''),
           (''lastModified'', JStr ''2026-11-03'')]"

definition updated_disk :: disk where
  "updated_disk =
     \<lparr>files = (\<lambda>p. Missing)(AssessmentsJson := Holds (JArr [other_record, updated_record])),
      writable = True\<rparr>"

definition forged_body :: json where
  "forged_body =
     JObj [(''id'', JStr ''mine''), (''processName'', JStr ''Payroll Export''), (''status'', JStr ''Draft''),
           (''createdDate'', JStr ''1999-12-31''), (''lastModified'', JStr ''1999-12-31'')]"

text \<open>
  A Draft row whose id holds a double quote, and the text \<^verbatim>\<open>renderTable\<close> writes
  for it.
\<close>

definition quoted_id :: string where
  "quoted_id = ''x'' @ dq @ '' disabled y='' @ dq"

definition quoted_id_row :: json where
  "quoted_id_row = JObj [(''id'', JStr quoted_id), (''status'', JStr ''Draft'')]"

definition quoted_id_view :: string where
  "quoted_id_view =
     ''<button class='' @ dq @ ''btn'' @ dq @ '' data-action='' @ dq @ ''view'' @ dq
       @ '' data-id='' @ dq @ ''x'' @ dq @ '' disabled y='' @ dq @ dq @ ''>View</button>''"

definition quoted_id_edit :: string where
  "quoted_id_edit =
     ''<button class='' @ dq @ ''btn'' @ dq @ '' data-action='' @ dq @ ''edit'' @ dq
       @ '' data-id='' @ dq @ ''x'' @ dq @ '' disabled y='' @ dq @ dq @ '' >Edit</button>''"

definition quoted_id_submit :: string where
  "quoted_id_submit =
     ''<button class='' @ dq @ ''btn'' @ dq @ '' data-action='' @ dq @ ''submit'' @ dq
       @ '' data-id='' @ dq @ ''x'' @ dq @ '' disabled y='' @ dq @ dq @ '' >Submit</button>''"

definition quoted_id_html :: string where
  "quoted_id_html =
     indent6 @ ''<td><a href='' @ dq @ ''#'' @ dq @ '' data-id='' @ dq @ ''x'' @ dq @ '' disabled y=''
       @ dq @ dq @ '' class='' @ dq @ ''viewLink'' @ dq @ ''></a></td>''
     @ indent6 @ ''<td title='' @ dq @ dq @ ''></td>''
     @ indent6 @ ''<td></td>''
     @ indent6 @ ''<td></td>''
     @ indent6 @ ''<td></td>''
     @ indent6 @ ''<td></td>''
     @ indent6 @ ''<td></td>''
     @ indent6 @ ''<td></td>''
     @ indent6 @ ''<td></td>''
     @ indent6 @ ''<td>Draft</td>''
     @ indent6 @ ''<td></td>''
     @ indent6 @ ''<td class='' @ dq @ ''actions'' @ dq @ ''>''
     @ indent8 @ quoted_id_view
     @ indent8 @ quoted_id_edit
     @ indent8 @ quoted_id_submit
     @ indent6 @ ''</td>'' @ CHR 0x0A # ''    ''"

section \<open>Basic facts\<close>

lemma bind_e_Inr [simp]: "bind_e (Inr x) f = f x"
  by (simp add: bind_e_def)

lemma bind_e_Inl [simp]: "bind_e (Inl e) f = Inl e"
  by (simp add: bind_e_def)

lemma bind_e_eq_Inr: "bind_e m f = Inr y \<longleftrightarrow> (\<exists>x. m = Inr x \<and> f x = Inr y)"
  by (cases m) simp_all

lemma property_obj [simp]: "property (JObj kvs) k = map_of kvs k"
  by (simp add: property_def)

lemma member_obj [simp]: "member (JObj kvs) k = Inr (map_of kvs k)"
  by (simp add: member_def)

lemma member_not_null: "v \<noteq> JNull \<Longrightarrow> member v k = Inr (property v k)"
  by (simp add: member_def)

lemma truthy_property_obj: "truthy (property v k) \<Longrightarrow> \<exists>kvs. v = JObj kvs"
  by (cases v) (simp_all add: property_def)

lemma missing_required_not_null:
  "body \<noteq> JNull \<Longrightarrow>
   missing_required body =
     Inr (\<not> truthy (property body ''processName'') \<or> \<not> truthy (property body ''status''))"
  by (simp add: missing_required_def member_def)

lemma missing_required_Inr:
  assumes "missing_required body = Inr bad"
  shows "body \<noteq> JNull \<and>
         bad = (\<not> truthy (property body ''processName'') \<or> \<not> truthy (property body ''status''))"
proof (cases "body = JNull")
  case True
  with assms show ?thesis
    by (simp add: missing_required_def member_def)
next
  case False
  with assms show ?thesis
    by (simp add: missing_required_not_null)
qed

lemma post_try_ok:
  assumes "readJsonFile d AssessmentsJson = Inr (JArr xs)" and "writable d"
    and "truthy (map_of kvs ''processName'')" and "truthy (map_of kvs ''status'')"
  shows "post_try d (JObj kvs) now day1 day2 =
           Inr (d\<lparr>files := (files d)(AssessmentsJson := Holds (JArr (xs @ [stamp (JObj kvs) now day1 day2])))\<rparr>,
                Response 201 (stamp (JObj kvs) now day1 day2))"
  using assms
  by (simp add: post_try_def missing_required_not_null push_def writeJsonFile_def Let_def)

lemma post_try_201D:
  assumes "post_try d body now day1 day2 = Inr (d', Response 201 stored)"
  shows "\<exists>kvs xs. body = JObj kvs \<and> truthy (map_of kvs ''processName'') \<and> truthy (map_of kvs ''status'')
           \<and> readJsonFile d AssessmentsJson = Inr (JArr xs) \<and> writable d
           \<and> stored = stamp body now day1 day2
           \<and> d' = d\<lparr>files := (files d)(AssessmentsJson := Holds (JArr (xs @ [stored])))\<rparr>"
proof -
  from assms obtain bad where bad: "missing_required body = Inr bad"
    by (auto simp: post_try_def bind_e_eq_Inr)
  with assms have nb: "\<not> bad"
    by (auto simp: post_try_def)
  from missing_required_Inr [OF bad] nb
  have t: "truthy (property body ''processName'')" "truthy (property body ''status'')"
    by auto
  then obtain kvs where kvs: "body = JObj kvs"
    using truthy_property_obj by blast
  from assms bad nb obtain v where v: "readJsonFile d AssessmentsJson = Inr v"
    by (auto simp: post_try_def bind_e_eq_Inr)
  from assms bad nb v kvs obtain xs where xs: "v = JArr xs"
    by (cases v) (auto simp: post_try_def push_def Let_def)
  from assms bad nb v kvs xs have w: "writable d"
    by (auto simp: post_try_def push_def Let_def writeJsonFile_def split: if_splits)
  from post_try_ok [OF v [unfolded xs] w, of kvs now day1 day2] t kvs assms
  show ?thesis using v xs w by auto
qed

lemma post_201_try:
  "post_assessments d body now day1 day2 = (d', Response 201 stored) \<Longrightarrow>
   post_try d body now day1 day2 = Inr (d', Response 201 stored)"
  by (auto simp: post_assessments_def split: sum.splits)

lemma stamp_obj:
  "stamp (JObj kvs) now day1 day2 =
     JObj (AList.update ''lastModified'' (JStr day2)
       (AList.update ''createdDate'' (JStr day1) (AList.update ''id'' (JStr (dec now)) kvs)))"
  by (simp add: stamp_def assign_def)

lemma findIndex_None: "findIndex p xs = Inr None \<longleftrightarrow> (\<forall>a\<in>set xs. p a = Inr False)"
  by (induction xs) (auto simp: bind_e_eq_Inr split: sum.splits bool.splits)

lemma findIndex_Some:
  "findIndex p xs = Inr (Some i) \<Longrightarrow>
   i < length xs \<and> p (xs ! i) = Inr True \<and> (\<forall>j<i. p (xs ! j) = Inr False)"
proof (induction xs arbitrary: i)
  case Nil
  then show ?case by simp
next
  case (Cons a as)
  show ?case
  proof (cases "p a")
    case (Inl e)
    with Cons.prems show ?thesis by simp
  next
    case (Inr b)
    show ?thesis
    proof (cases b)
      case True
      with Inr Cons.prems show ?thesis by simp
    next
      case False
      with Inr Cons.prems obtain i' where i': "findIndex p as = Inr (Some i')" "i = Suc i'"
        by (auto simp: bind_e_eq_Inr)
      from Cons.IH [OF i'(1)] i'(2) Inr False show ?thesis
        by (auto simp: less_Suc_eq_0_disj)
    qed
  qed
qed

lemma findIndex_SomeI:
  "i < length xs \<Longrightarrow> p (xs ! i) = Inr True \<Longrightarrow> (\<forall>j<i. p (xs ! j) = Inr False) \<Longrightarrow>
   findIndex p xs = Inr (Some i)"
proof (induction xs arbitrary: i)
  case Nil
  then show ?case by simp
next
  case (Cons a as)
  show ?case
  proof (cases i)
    case 0
    with Cons.prems show ?thesis by simp
  next
    case (Suc i')
    with Cons.prems have a: "p a = Inr False" by auto
    from Cons.prems Suc have "findIndex p as = Inr (Some i')"
      by (intro Cons.IH) auto
    with a Suc show ?thesis by simp
  qed
qed

lemma has_id_Inr:
  "has_id pid a = Inr b \<longleftrightarrow> a \<noteq> JNull \<and> b = (property a ''id'' = Some (JStr pid))"
  by (auto simp: has_id_def member_def)

lemma has_id_True_obj: "has_id pid a = Inr True \<Longrightarrow> \<exists>kvs. a = JObj kvs"
  by (cases a) (auto simp: has_id_Inr property_def)

section \<open>Objects as association lists\<close>

lemma map_of_spread: "map_of (spread t s) = map_of t ++ map_of (rev s)"
  unfolding spread_def
proof (induction s arbitrary: t)
  case Nil
  show ?case by simp
next
  case (Cons kv s)
  obtain k v where kv: "kv = (k, v)" by (cases kv)
  show ?case
    by (simp add: kv Cons.IH AList.update_conv' map_add_upd_left fun_eq_iff map_add_def split: option.splits)
qed

lemma distinct_spread: "distinct (map fst t) \<Longrightarrow> distinct (map fst (spread t s))"
  unfolding spread_def
  by (induction s arbitrary: t) (auto simp: AList.distinct_update)

lemma update_fresh: "k \<notin> fst ` set al \<Longrightarrow> AList.update k v al = al @ [(k, v)]"
  by (induction al) auto

lemma spread_distinct_append: "distinct (map fst (t @ s)) \<Longrightarrow> spread t s = t @ s"
  unfolding spread_def
proof (induction s arbitrary: t)
  case Nil
  show ?case by simp
next
  case (Cons kv s)
  obtain k v where kv: "kv = (k, v)" by (cases kv)
  from Cons.prems kv have fresh: "k \<notin> fst ` set t" by auto
  from Cons.prems kv have "distinct (map fst ((t @ [(k, v)]) @ s))" by auto
  from Cons.IH [OF this] show ?case
    by (simp add: kv update_fresh [OF fresh])
qed

lemma spread_Nil_distinct: "distinct (map fst s) \<Longrightarrow> spread [] s = s"
  using spread_distinct_append [of "[]" s] by simp

lemma keys_update_present: "k \<in> fst ` set al \<Longrightarrow> map fst (AList.update k v al) = map fst al"
  by (simp add: AList.update_keys)

lemma keys_spread_present: "fst ` set s \<subseteq> fst ` set t \<Longrightarrow> map fst (spread t s) = map fst t"
  unfolding spread_def
proof (induction s arbitrary: t)
  case Nil
  show ?case by simp
next
  case (Cons kv s)
  obtain k v where kv: "kv = (k, v)" by (cases kv)
  from Cons.prems kv have k: "k \<in> fst ` set t" by auto
  have "fst ` set s \<subseteq> fst ` set (AList.update k v t)"
    using Cons.prems by (auto simp: AList.dom_update)
  from Cons.IH [OF this] show ?case
    by (simp add: kv keys_update_present [OF k])
qed

lemma keys_spread: "fst ` set (spread t s) = fst ` set t \<union> fst ` set s"
proof -
  have "dom (map_of (spread t s)) = dom (map_of t) \<union> dom (map_of (rev s))"
    by (auto simp: map_of_spread)
  then show ?thesis
    by (simp add: dom_map_of_conv_image_fst)
qed

lemma alist_eqI:
  "distinct (map fst xs) \<Longrightarrow> map fst xs = map fst ys \<Longrightarrow> map_of xs = map_of ys \<Longrightarrow> xs = ys"
proof (induction xs arbitrary: ys)
  case Nil
  then show ?case by simp
next
  case (Cons x xs)
  obtain k v where x: "x = (k, v)" by (cases x)
  from Cons.prems(2) x obtain w ys' where ys: "ys = (k, w) # ys'" and keys: "map fst xs = map fst ys'"
    by (cases ys) auto
  from Cons.prems(3) x ys have vw: "v = w"
    by (auto dest: fun_cong [where x = k])
  from Cons.prems(1) x have fresh: "k \<notin> fst ` set xs" by auto
  with keys have fresh': "k \<notin> fst ` set ys'"
    by (metis image_set)
  have "map_of xs = map_of ys'"
  proof
    fix k'
    show "map_of xs k' = map_of ys' k'"
    proof (cases "k' = k")
      case True
      from fresh fresh' have "map_of xs k = None" and "map_of ys' k = None"
        by (simp_all add: map_of_eq_None_iff)
      with True show ?thesis by simp
    next
      case False
      with Cons.prems(3) x ys show ?thesis
        by (auto dest: fun_cong [where x = k'])
    qed
  qed
  with Cons.IH [of ys'] Cons.prems(1) keys have "xs = ys'" by simp
  with x ys vw show ?case by simp
qed

section \<open>The update handler, case by case\<close>

lemma put_try_found:
  assumes "readJsonFile d AssessmentsJson = Inr (JArr xs)" and "writable d"
    and "truthy (property body ''processName'')" and "truthy (property body ''status'')"
    and "findIndex (has_id pid) xs = Inr (Some i)"
  shows "put_try d pid body today =
           Inr (d\<lparr>files := (files d)(AssessmentsJson :=
                   Holds (JArr (xs[i := merged_record (xs ! i) body pid today])))\<rparr>,
                Response 200 (merged_record (xs ! i) body pid today))"
proof -
  from assms(3) have nn: "body \<noteq> JNull"
    by (auto simp: property_def)
  from findIndex_Some [OF assms(5)] have "i < length xs" by simp
  with assms nn show ?thesis
    by (simp add: put_try_def missing_required_not_null elements_def writeJsonFile_def Let_def)
qed

lemma put_try_not_found:
  assumes "readJsonFile d AssessmentsJson = Inr (JArr xs)"
    and "truthy (property body ''processName'')" and "truthy (property body ''status'')"
    and "findIndex (has_id pid) xs = Inr None"
  shows "put_try d pid body today = Inr (d, Response 404 (error_body ''Assessment not found''))"
proof -
  from assms(2) have nn: "body \<noteq> JNull"
    by (auto simp: property_def)
  with assms show ?thesis
    by (simp add: put_try_def missing_required_not_null elements_def)
qed

lemma put_try_200D:
  assumes "put_try d pid body today = Inr (d', Response 200 r)"
  shows "\<exists>xs i. truthy (property body ''processName'') \<and> truthy (property body ''status'')
           \<and> readJsonFile d AssessmentsJson = Inr (JArr xs) \<and> writable d
           \<and> findIndex (has_id pid) xs = Inr (Some i)
           \<and> r = merged_record (xs ! i) body pid today
           \<and> d' = d\<lparr>files := (files d)(AssessmentsJson := Holds (JArr (xs[i := r])))\<rparr>"
proof -
  from assms obtain bad where bad: "missing_required body = Inr bad"
    by (auto simp: put_try_def bind_e_eq_Inr)
  with assms have nb: "\<not> bad"
    by (auto simp: put_try_def)
  from missing_required_Inr [OF bad] nb
  have t: "truthy (property body ''processName'')" "truthy (property body ''status'')"
    by auto
  from assms bad nb obtain v where v: "readJsonFile d AssessmentsJson = Inr v"
    by (auto simp: put_try_def bind_e_eq_Inr)
  from assms bad nb v obtain xs where xs: "v = JArr xs"
    by (cases v) (auto simp: put_try_def elements_def)
  from assms bad nb v xs obtain index where index: "findIndex (has_id pid) xs = Inr index"
    by (auto simp: put_try_def elements_def bind_e_eq_Inr)
  from assms bad nb v xs index obtain i where i: "index = Some i"
    by (cases index) (auto simp: put_try_def elements_def)
  from assms bad nb v xs index i have w: "writable d"
    by (auto simp: put_try_def elements_def Let_def writeJsonFile_def split: if_splits)
  from put_try_found [OF v [unfolded xs] w t index [unfolded i], of today] assms
  show ?thesis using t v xs w index i by auto
qed

lemma put_200_try:
  "put_assessments d pid body today = (d', Response 200 r) \<Longrightarrow>
   put_try d pid body today = Inr (d', Response 200 r)"
  by (auto simp: put_assessments_def split: sum.splits)

lemma map_of_merged:
  "map_of (own_props (merged_record old body pid today)) =
     (map_of (rev (own_props old)) ++ map_of (rev (own_props body)))
       (''id'' \<mapsto> JStr pid, ''lastModified'' \<mapsto> JStr today)"
  by (simp add: merged_record_def own_props_def AList.update_conv' map_of_spread)

lemma distinct_merged: "distinct (map fst (own_props (merged_record old body pid today)))"
  by (simp add: merged_record_def own_props_def AList.distinct_update distinct_spread)

lemma keys_merged:
  "fst ` set (own_props (merged_record old body pid today)) =
     fst ` set (own_props old) \<union> fst ` set (own_props body) \<union> {''id'', ''lastModified''}"
  by (auto simp: merged_record_def own_props_def AList.dom_update keys_spread)

lemma merged_record_again:
  "merged_record (merged_record old body pid day1) body pid day2 =
     assign (merged_record old body pid day1) ''lastModified'' (JStr day2)"
proof -
  define r1 where "r1 = own_props (merged_record old body pid day1)"
  have r1: "merged_record old body pid day1 = JObj r1"
    by (simp add: r1_def merged_record_def own_props_def)
  have d1: "distinct (map fst r1)"
    unfolding r1_def by (rule distinct_merged)
  have k1: "fst ` set (own_props body) \<subseteq> fst ` set r1" "''id'' \<in> fst ` set r1" "''lastModified'' \<in> fst ` set r1"
    unfolding r1_def by (auto simp: keys_merged)
  have m1: "map_of r1 = (map_of (rev (own_props old)) ++ map_of (rev (own_props body)))
       (''id'' \<mapsto> JStr pid, ''lastModified'' \<mapsto> JStr day1)"
    unfolding r1_def by (rule map_of_merged)
  let ?r2 = "AList.update ''lastModified'' (JStr day2)
            (AList.update ''id'' (JStr pid) (spread r1 (own_props body)))"
  have r2: "merged_record (JObj r1) body pid day2 = JObj ?r2"
    by (simp add: merged_record_def own_props_def spread_Nil_distinct [OF d1])
  have ks: "map fst (spread r1 (own_props body)) = map fst r1"
    by (rule keys_spread_present [OF k1(1)])
  have keys2: "map fst ?r2 = map fst r1"
    using k1 ks by (simp add: AList.update_keys image_set [symmetric] del: image_set)
  have keys3: "map fst (AList.update ''lastModified'' (JStr day2) r1) = map fst r1"
    using k1 by (simp add: AList.update_keys image_set [symmetric] del: image_set)
  have maps: "map_of ?r2 = map_of (AList.update ''lastModified'' (JStr day2) r1)"
    by (auto simp: AList.update_conv' map_of_spread m1 fun_eq_iff map_add_def split: option.splits)
  have dist2: "distinct (map fst ?r2)"
    using d1 keys2 by simp
  have "?r2 = AList.update ''lastModified'' (JStr day2) r1"
    by (rule alist_eqI [OF dist2 _ maps]) (simp add: keys2 keys3)
  with r1 r2 show ?thesis
    by (simp add: assign_def)
qed

section \<open>Reading the collection\<close>

text \<open>
  Claim C5. In the server that defines \<^verbatim>\<open>readJsonFile\<close> (the one that also has POST
  and PUT), \<^verbatim>\<open>GET /api/assessments\<close> answers 200 with the empty array when
  \<^verbatim>\<open>assessments.json\<close> does not exist.
\<close>

theorem get_missing_file_empty_array:
  "get_assessments (d\<lparr>files := (files d)(AssessmentsJson := Missing)\<rparr>) = Response 200 (JArr [])"
  by (simp add: get_assessments_def readJsonFile_def)

section \<open>Creating and updating\<close>

lemma dec_digits: "dec n \<noteq> [] \<and> set (dec n) \<subseteq> set ''0123456789''"
proof (induction n rule: dec.induct)
  case (1 n)
  have dig: "\<And>m. m < 10 \<Longrightarrow> digit m \<in> set ''0123456789''"
    unfolding digit_def by (rule nth_mem) simp
  show ?case
  proof (cases "n < 10")
    case True
    with dig [of n] show ?thesis
      by (subst (1 2) dec.simps) simp
  next
    case False
    with "1.IH" dig [of "n mod 10"] show ?thesis
      by (subst (1 2) dec.simps) simp
  qed
qed

text \<open>
  Claim C1. When the store can be read and written (the file is missing or holds an
  array, and the write succeeds), a POST whose body has a truthy \<^verbatim>\<open>processName\<close>
  and a truthy \<^verbatim>\<open>status\<close> (every non-empty string is truthy) answers 201 with
  the stored record, the record carries the id assigned from the clock, and the next
  \<^verbatim>\<open>GET /api/assessments\<close> answers 200 with an array that contains this record.
\<close>

theorem post_created_then_listed:
  assumes "readJsonFile d AssessmentsJson = Inr (JArr xs)" and "writable d"
    and "truthy (property body ''processName'')" and "truthy (property body ''status'')"
  shows "\<exists>d' stored ys.
           post_assessments d body now day1 day2 = (d', Response 201 stored)
         \<and> property stored ''id'' = Some (JStr (dec now))
         \<and> get_assessments d' = Response 200 (JArr ys)
         \<and> stored \<in> set ys"
proof -
  from assms(3) obtain kvs where kvs: "body = JObj kvs"
    using truthy_property_obj by blast
  let ?stored = "stamp body now day1 day2"
  let ?d' = "d\<lparr>files := (files d)(AssessmentsJson := Holds (JArr (xs @ [?stored])))\<rparr>"
  from post_try_ok [OF assms(1,2), of kvs now day1 day2] assms(3,4) kvs
  have "post_assessments d body now day1 day2 = (?d', Response 201 ?stored)"
    by (simp add: post_assessments_def)
  moreover have "property ?stored ''id'' = Some (JStr (dec now))"
    by (simp add: kvs stamp_obj AList.update_conv')
  moreover have "get_assessments ?d' = Response 200 (JArr (xs @ [?stored]))"
    by (simp add: get_assessments_def readJsonFile_def)
  ultimately show ?thesis by auto
qed

theorem post_created_then_listed_witness:
  "readJsonFile empty_disk AssessmentsJson = Inr (JArr [])
   \<and> writable empty_disk
   \<and> truthy (property payroll_body ''processName'')
   \<and> truthy (property payroll_body ''status'')
   \<and> (\<exists>d' stored ys.
         post_assessments empty_disk payroll_body 42 ''2026-11-03'' ''2026-11-03'' = (d', Response 201 stored)
       \<and> property stored ''id'' = Some (JStr (dec 42))
       \<and> get_assessments d' = Response 200 (JArr ys)
       \<and> stored \<in> set ys)"
proof -
  have h1: "readJsonFile empty_disk AssessmentsJson = Inr (JArr [])"
    by (simp add: readJsonFile_def empty_disk_def)
  have h2: "writable empty_disk"
    by (simp add: empty_disk_def)
  have h3: "truthy (property payroll_body ''processName'')"
    by (simp add: payroll_body_def)
  have h4: "truthy (property payroll_body ''status'')"
    by (simp add: payroll_body_def)
  from post_created_then_listed [OF h1 h2 h3 h4] h1 h2 h3 h4 show ?thesis
    by blast
qed

text \<open>
  Claim C3. A POST whose body lacks \<^verbatim>\<open>processName\<close> or \<^verbatim>\<open>status\<close>, or has a
  falsy value there (\<^verbatim>\<open>null\<close>, the empty string, \<^verbatim>\<open>false\<close>, zero), answers 400
  and leaves the store as it was, whatever the store holds. The body is what the JSON
  body parser hands over, an object or an array, never \<^verbatim>\<open>null\<close>.
\<close>

theorem post_missing_required_rejected:
  assumes "body \<noteq> JNull"
    and "\<not> truthy (property body ''processName'') \<or> \<not> truthy (property body ''status'')"
  shows "post_assessments d body now day1 day2 =
           (d, Response 400 (error_body ''Process Name and Status are required.''))"
  using assms
  by (auto simp: post_assessments_def post_try_def missing_required_not_null)

theorem post_missing_required_rejected_witness:
  "JObj [(''processName'', JStr ''Payroll Export''), (''status'', JStr [])] \<noteq> JNull
   \<and> \<not> truthy (property (JObj [(''processName'', JStr ''Payroll Export''), (''status'', JStr [])]) ''status'')
   \<and> post_assessments sample_disk
        (JObj [(''processName'', JStr ''Payroll Export''), (''status'', JStr [])]) 42 ''2026-11-03'' ''2026-11-03'' =
        (sample_disk, Response 400 (error_body ''Process Name and Status are required.''))"
proof -
  let ?b = "JObj [(''processName'', JStr ''Payroll Export''), (''status'', JStr [])]"
  have h1: "?b \<noteq> JNull" by simp
  have h2: "\<not> truthy (property ?b ''status'')" by simp
  from post_missing_required_rejected [OF h1 disjI2 [OF h2]] h1 h2 show ?thesis
    by blast
qed

text \<open>
  Claim C4. When no record of the stored collection has the id of the path, a PUT whose
  body has both required fields answers 404 and leaves the store as it was.
\<close>

theorem put_unknown_id_not_found:
  assumes "readJsonFile d AssessmentsJson = Inr (JArr xs)"
    and "JNull \<notin> set xs"
    and "\<forall>a\<in>set xs. property a ''id'' \<noteq> Some (JStr pid)"
    and "truthy (property body ''processName'')" and "truthy (property body ''status'')"
  shows "put_assessments d pid body today = (d, Response 404 (error_body ''Assessment not found''))"
proof -
  from assms(2,3) have "\<forall>a\<in>set xs. has_id pid a = Inr False"
    by (auto simp: has_id_Inr)
  then have "findIndex (has_id pid) xs = Inr None"
    by (simp add: findIndex_None)
  from put_try_not_found [OF assms(1,4,5) this] show ?thesis
    by (simp add: put_assessments_def)
qed

theorem put_unknown_id_not_found_witness:
  "readJsonFile sample_disk AssessmentsJson = Inr (JArr [other_record, original_record])
   \<and> JNull \<notin> set [other_record, original_record]
   \<and> property other_record ''id'' \<noteq> Some (JStr ''2'')
   \<and> property original_record ''id'' \<noteq> Some (JStr ''2'')
   \<and> truthy (property payroll_body ''processName'')
   \<and> truthy (property payroll_body ''status'')
   \<and> put_assessments sample_disk ''2'' payroll_body ''2026-11-03'' =
       (sample_disk, Response 404 (error_body ''Assessment not found''))"
proof -
  have h1: "readJsonFile sample_disk AssessmentsJson = Inr (JArr [other_record, original_record])"
    by (simp add: readJsonFile_def sample_disk_def)
  have h2: "JNull \<notin> set [other_record, original_record]"
    by (simp add: original_record_def other_record_def)
  have h3: "property other_record ''id'' \<noteq> Some (JStr ''2'')"
    and h4: "property original_record ''id'' \<noteq> Some (JStr ''2'')"
    by (simp_all add: original_record_def other_record_def)
  then have h34: "\<forall>a\<in>set [other_record, original_record]. property a ''id'' \<noteq> Some (JStr ''2'')"
    by simp
  have h5: "truthy (property payroll_body ''processName'')"
    by (simp add: payroll_body_def)
  have h6: "truthy (property payroll_body ''status'')"
    by (simp add: payroll_body_def)
  from put_unknown_id_not_found [OF h1 h2 h34 h5 h6] h1 h2 h3 h4 h5 h6 show ?thesis
    by (intro conjI)
qed

section \<open>Updating twice, and what a mutation leaves alone\<close>

lemma put_keeps_id_and_date_when_body_has_none:
  assumes "put_assessments d pid body today = (d', Response 200 r)"
  shows "\<exists>xs i. readJsonFile d AssessmentsJson = Inr (JArr xs) \<and> i < length xs
           \<and> property (xs ! i) ''id'' = Some (JStr pid)
           \<and> property r ''id'' = Some (JStr pid)
           \<and> property r ''lastModified'' = Some (JStr today)
           \<and> (property body ''createdDate'' = None \<longrightarrow>
                property r ''createdDate'' = map_of (rev (own_props (xs ! i))) ''createdDate'')"
proof -
  from put_try_200D [OF put_200_try [OF assms]]
  obtain xs i where xs: "readJsonFile d AssessmentsJson = Inr (JArr xs)"
    and i: "findIndex (has_id pid) xs = Inr (Some i)"
    and r: "r = merged_record (xs ! i) body pid today"
    and t: "truthy (property body ''processName'')"
    by blast
  from findIndex_Some [OF i] have il: "i < length xs" and "has_id pid (xs ! i) = Inr True"
    by auto
  then have old_id: "property (xs ! i) ''id'' = Some (JStr pid)"
    by (simp add: has_id_Inr)
  from t obtain kvs where kvs: "body = JObj kvs"
    using truthy_property_obj by blast
  have pr: "\<And>k. property r k = map_of (own_props r) k"
    by (simp add: r merged_record_def own_props_def)
  have new_id: "property r ''id'' = Some (JStr pid)" "property r ''lastModified'' = Some (JStr today)"
    by (simp_all add: pr) (simp_all add: r map_of_merged)
  have created: "property body ''createdDate'' = None \<longrightarrow>
                property r ''createdDate'' = map_of (rev (own_props (xs ! i))) ''createdDate''"
  proof
    assume a: "property body ''createdDate'' = None"
    from a have "''createdDate'' \<notin> fst ` set kvs"
      by (simp add: kvs map_of_eq_None_iff)
    then have "''createdDate'' \<notin> fst ` set (rev kvs)"
      by simp
    then have "map_of (rev kvs) ''createdDate'' = None"
      by (rule iffD2 [OF map_of_eq_None_iff])
    then have b: "map_of (rev (own_props body)) ''createdDate'' = None"
      by (simp add: kvs own_props_def)
    have "map_of (own_props r) ''createdDate'' = map_of (rev (own_props (xs ! i))) ''createdDate''"
      by (simp only: r map_of_merged) (simp add: map_add_def b)
    then show "property r ''createdDate'' = map_of (rev (own_props (xs ! i))) ''createdDate''"
      by (simp only: pr)
  qed
  from xs il old_id new_id created show ?thesis
    by (intro exI [of _ xs] exI [of _ i] conjI)
qed

lemma put_assessments_found:
  assumes "readJsonFile d AssessmentsJson = Inr (JArr xs)" and "writable d"
    and "truthy (property body ''processName'')" and "truthy (property body ''status'')"
    and "findIndex (has_id pid) xs = Inr (Some i)"
  shows "put_assessments d pid body today =
           (d\<lparr>files := (files d)(AssessmentsJson :=
                   Holds (JArr (xs[i := merged_record (xs ! i) body pid today])))\<rparr>,
            Response 200 (merged_record (xs ! i) body pid today))"
  by (simp add: put_assessments_def put_try_found [OF assms])

lemma property_assign_other:
  "k \<noteq> k' \<Longrightarrow> property (assign v k' x) k = property v k"
  by (cases v) (simp_all add: assign_def property_def AList.update_conv')

lemma property_merged_lastModified:
  "property (merged_record old body pid today) ''lastModified'' = Some (JStr today)"
  by (simp add: merged_record_def AList.update_conv')

lemma property_merged_id:
  "property (merged_record old body pid today) ''id'' = Some (JStr pid)"
  by (simp add: merged_record_def AList.update_conv')

lemma merged_record_same_day:
  "merged_record (merged_record old body pid today) body pid today = merged_record old body pid today"
proof -
  have "map_of (own_props (merged_record old body pid today)) ''lastModified'' = Some (JStr today)"
    by (simp add: map_of_merged)
  then show ?thesis
    by (simp add: merged_record_again) (simp add: merged_record_def assign_def own_props_def AList.update_triv)
qed

text \<open>
  Claim C6. When a PUT has answered 200, the same PUT again (same path id, same body)
  answers 200 too, and the record it stores and returns is the first one with
  \<^verbatim>\<open>lastModified\<close> set to the new date: every other property is the same, the
  record sits at the same place of the collection, and on the same day record and store
  do not change at all.
\<close>

theorem put_twice_same_record:
  assumes "put_assessments d pid body day1 = (d1, Response 200 r1)"
  shows "\<exists>d2 r2 xs i.
           put_assessments d1 pid body day2 = (d2, Response 200 r2)
         \<and> r2 = assign r1 ''lastModified'' (JStr day2)
         \<and> (\<forall>k. k \<noteq> ''lastModified'' \<longrightarrow> property r2 k = property r1 k)
         \<and> files d1 AssessmentsJson = Holds (JArr xs) \<and> i < length xs \<and> xs ! i = r1
         \<and> files d2 AssessmentsJson = Holds (JArr (xs[i := r2]))
         \<and> (day2 = day1 \<longrightarrow> r2 = r1 \<and> d2 = d1)"
proof -
  from put_try_200D [OF put_200_try [OF assms]]
  obtain xs i where t: "truthy (property body ''processName'')" "truthy (property body ''status'')"
    and w: "writable d"
    and i: "findIndex (has_id pid) xs = Inr (Some i)"
    and r1: "r1 = merged_record (xs ! i) body pid day1"
    and d1: "d1 = d\<lparr>files := (files d)(AssessmentsJson := Holds (JArr (xs[i := r1])))\<rparr>"
    by blast
  let ?ys = "xs[i := r1]"
  let ?r2 = "merged_record r1 body pid day2"
  from findIndex_Some [OF i] have il: "i < length xs"
    and before: "\<forall>j<i. has_id pid (xs ! j) = Inr False"
    by auto
  have read1: "readJsonFile d1 AssessmentsJson = Inr (JArr ?ys)"
    by (simp add: d1 readJsonFile_def)
  have w1: "writable d1"
    by (simp add: d1 w)
  have at_i: "has_id pid (?ys ! i) = Inr True"
    using il by (simp add: has_id_Inr r1 property_merged_id) (simp add: merged_record_def)
  have before': "\<forall>j<i. has_id pid (?ys ! j) = Inr False"
    using before by simp
  have i': "findIndex (has_id pid) ?ys = Inr (Some i)"
    using il at_i before' by (intro findIndex_SomeI) simp_all
  let ?d2 = "d1\<lparr>files := (files d1)(AssessmentsJson := Holds (JArr (?ys[i := ?r2])))\<rparr>"
  have second: "put_assessments d1 pid body day2 = (?d2, Response 200 ?r2)"
    using put_assessments_found [OF read1 w1 t i', of day2] il by simp
  have again: "?r2 = assign r1 ''lastModified'' (JStr day2)"
    unfolding r1 by (rule merged_record_again)
  have others: "\<forall>k. k \<noteq> ''lastModified'' \<longrightarrow> property ?r2 k = property r1 k"
    by (simp add: again property_assign_other)
  have same: "day2 = day1 \<longrightarrow> ?r2 = r1 \<and> ?d2 = d1"
  proof
    assume eq: "day2 = day1"
    then have "?r2 = r1"
      by (simp add: r1 merged_record_same_day)
    then show "?r2 = r1 \<and> ?d2 = d1"
      by (simp add: d1)
  qed
  have stored1: "files d1 AssessmentsJson = Holds (JArr ?ys)"
    by (simp add: d1)
  have il': "i < length ?ys"
    using il by simp
  have at: "?ys ! i = r1"
    using il by simp
  have stored2: "files ?d2 AssessmentsJson = Holds (JArr (?ys[i := ?r2]))"
    by simp
  from second again others stored1 il' at stored2 same show ?thesis
    by - (rule exI [of _ ?d2], rule exI [of _ ?r2], rule exI [of _ ?ys], rule exI [of _ i],
        intro conjI, assumption+)
qed

lemma put_backdated_eval:
  "put_assessments sample_disk ''1'' backdated_body ''2026-11-03'' =
     (updated_disk, Response 200 updated_record)"
  by (simp add: put_assessments_def put_try_def missing_required_def sample_disk_def
      backdated_body_def original_record_def readJsonFile_def elements_def has_id_def
      other_record_def merged_record_def own_props_def spread_def writeJsonFile_def updated_disk_def
      updated_record_def)

text \<open>
  Claim C2, at a concrete request. The stored record has id 1 and creation date
  2024-01-01; the body of \<^verbatim>\<open>PUT /api/assessments/1\<close> carries the creation date
  1999-12-31. The handler answers 200, and the record it stores and returns keeps the
  id but has the body's creation date: the object literal pins \<^verbatim>\<open>id\<close> and
  \<^verbatim>\<open>lastModified\<close> after copying the body, and not \<^verbatim>\<open>createdDate\<close>.
\<close>

theorem put_body_overrides_createdDate:
  "files sample_disk AssessmentsJson = Holds (JArr [other_record, original_record])
   \<and> property original_record ''id'' = Some (JStr ''1'')
   \<and> property original_record ''createdDate'' = Some (JStr ''2024-01-01'')
   \<and> property backdated_body ''createdDate'' = Some (JStr ''1999-12-31'')
   \<and> put_assessments sample_disk ''1'' backdated_body ''2026-11-03'' =
        (updated_disk, Response 200 updated_record)
   \<and> files updated_disk AssessmentsJson = Holds (JArr [other_record, updated_record])
   \<and> property updated_record ''id'' = Some (JStr ''1'')
   \<and> property updated_record ''createdDate'' = Some (JStr ''1999-12-31'')
   \<and> property updated_record ''lastModified'' = Some (JStr ''2026-11-03'')"
  by (simp add: put_backdated_eval)
     (simp add: sample_disk_def original_record_def backdated_body_def updated_record_def updated_disk_def)

theorem put_twice_same_record_witness:
  "put_assessments sample_disk ''1'' backdated_body ''2026-11-03'' =
     (updated_disk, Response 200 updated_record)
   \<and> (\<exists>d2 r2 xs i.
           put_assessments updated_disk ''1'' backdated_body ''2026-11-04'' = (d2, Response 200 r2)
         \<and> r2 = assign updated_record ''lastModified'' (JStr ''2026-11-04'')
         \<and> (\<forall>k. k \<noteq> ''lastModified'' \<longrightarrow> property r2 k = property updated_record k)
         \<and> files updated_disk AssessmentsJson = Holds (JArr xs) \<and> i < length xs \<and> xs ! i = updated_record
         \<and> files d2 AssessmentsJson = Holds (JArr (xs[i := r2])))
   \<and> put_assessments updated_disk ''1'' backdated_body ''2026-11-03'' =
        (updated_disk, Response 200 updated_record)"
proof -
  from put_twice_same_record [OF put_backdated_eval, of "''2026-11-04''"]
  have next_day: "\<exists>d2 r2 xs i.
           put_assessments updated_disk ''1'' backdated_body ''2026-11-04'' = (d2, Response 200 r2)
         \<and> r2 = assign updated_record ''lastModified'' (JStr ''2026-11-04'')
         \<and> (\<forall>k. k \<noteq> ''lastModified'' \<longrightarrow> property r2 k = property updated_record k)
         \<and> files updated_disk AssessmentsJson = Holds (JArr xs) \<and> i < length xs \<and> xs ! i = updated_record
         \<and> files d2 AssessmentsJson = Holds (JArr (xs[i := r2]))"
    by blast
  from put_twice_same_record [OF put_backdated_eval, of "''2026-11-03''"]
  have same_day: "put_assessments updated_disk ''1'' backdated_body ''2026-11-03'' =
        (updated_disk, Response 200 updated_record)"
    by auto
  from put_backdated_eval next_day same_day show ?thesis
    by (intro conjI)
qed

text \<open>
  Claim C10. Whatever the body of a POST that answers 201 says about \<^verbatim>\<open>id\<close>,
  \<^verbatim>\<open>createdDate\<close> and \<^verbatim>\<open>lastModified\<close>, the record returned, which is the last
  one of the stored collection, has the decimal digits of the clock reading as its id and
  the two date readings as its dates.
\<close>

theorem post_server_assigned_fields:
  assumes "post_assessments d body now day1 day2 = (d', Response 201 stored)"
  shows "property stored ''id'' = Some (JStr (dec now))
       \<and> property stored ''createdDate'' = Some (JStr day1)
       \<and> property stored ''lastModified'' = Some (JStr day2)
       \<and> dec now \<noteq> [] \<and> set (dec now) \<subseteq> set ''0123456789''
       \<and> (\<exists>xs. files d' AssessmentsJson = Holds (JArr (xs @ [stored])))"
proof -
  from post_try_201D [OF post_201_try [OF assms]]
  obtain kvs xs where kvs: "body = JObj kvs"
    and stored: "stored = stamp body now day1 day2"
    and d': "d' = d\<lparr>files := (files d)(AssessmentsJson := Holds (JArr (xs @ [stored])))\<rparr>"
    by blast
  have "property stored ''id'' = Some (JStr (dec now))"
    "property stored ''createdDate'' = Some (JStr day1)"
    "property stored ''lastModified'' = Some (JStr day2)"
    by (simp_all add: stored kvs stamp_obj AList.update_conv')
  moreover have "files d' AssessmentsJson = Holds (JArr (xs @ [stored]))"
    by (simp add: d')
  ultimately show ?thesis
    using dec_digits [of now] by (intro conjI exI [of _ xs]) simp_all
qed

lemma post_ok:
  assumes "readJsonFile d AssessmentsJson = Inr (JArr xs)" and "writable d"
    and "truthy (property body ''processName'')" and "truthy (property body ''status'')"
  shows "post_assessments d body now day1 day2 =
           (d\<lparr>files := (files d)(AssessmentsJson := Holds (JArr (xs @ [stamp body now day1 day2])))\<rparr>,
            Response 201 (stamp body now day1 day2))"
proof -
  from assms(3) obtain kvs where kvs: "body = JObj kvs"
    using truthy_property_obj by blast
  from post_try_ok [OF assms(1,2), of kvs now day1 day2] assms(3,4) kvs show ?thesis
    by (simp add: post_assessments_def)
qed

lemma post_forged_eval:
  "post_assessments empty_disk forged_body 42 ''2026-11-03'' ''2026-11-04'' =
     (empty_disk\<lparr>files := (files empty_disk)(AssessmentsJson :=
          Holds (JArr ([] @ [stamp forged_body 42 ''2026-11-03'' ''2026-11-04''])))\<rparr>,
      Response 201 (stamp forged_body 42 ''2026-11-03'' ''2026-11-04''))"
  by (rule post_ok) (simp_all add: readJsonFile_def empty_disk_def forged_body_def)

lemma dec_42: "dec 42 = ''42''"
  by code_simp

theorem post_server_assigned_fields_witness:
  "post_assessments empty_disk forged_body 42 ''2026-11-03'' ''2026-11-04'' =
     (empty_disk\<lparr>files := (files empty_disk)(AssessmentsJson :=
          Holds (JArr ([] @ [stamp forged_body 42 ''2026-11-03'' ''2026-11-04''])))\<rparr>,
      Response 201 (stamp forged_body 42 ''2026-11-03'' ''2026-11-04''))
   \<and> property forged_body ''id'' = Some (JStr ''mine'')
   \<and> property forged_body ''createdDate'' = Some (JStr ''1999-12-31'')
   \<and> property forged_body ''lastModified'' = Some (JStr ''1999-12-31'')
   \<and> property (stamp forged_body 42 ''2026-11-03'' ''2026-11-04'') ''id'' = Some (JStr ''42'')
   \<and> property (stamp forged_body 42 ''2026-11-03'' ''2026-11-04'') ''createdDate'' = Some (JStr ''2026-11-03'')
   \<and> property (stamp forged_body 42 ''2026-11-03'' ''2026-11-04'') ''lastModified'' = Some (JStr ''2026-11-04'')"
proof -
  have forged: "property forged_body ''id'' = Some (JStr ''mine'')"
    "property forged_body ''createdDate'' = Some (JStr ''1999-12-31'')"
    "property forged_body ''lastModified'' = Some (JStr ''1999-12-31'')"
    by (simp_all add: forged_body_def)
  from post_server_assigned_fields [OF post_forged_eval]
  have assigned: "property (stamp forged_body 42 ''2026-11-03'' ''2026-11-04'') ''id'' = Some (JStr ''42'')"
    "property (stamp forged_body 42 ''2026-11-03'' ''2026-11-04'') ''createdDate'' = Some (JStr ''2026-11-03'')"
    "property (stamp forged_body 42 ''2026-11-03'' ''2026-11-04'') ''lastModified'' = Some (JStr ''2026-11-04'')"
    unfolding dec_42 by blast+
  from post_forged_eval forged assigned show ?thesis
    by (intro conjI)
qed

text \<open>
  Claim C9. A POST that answers 201 leaves the collection it read in place and in order,
  with the new record appended; a PUT that answers 200 keeps the length of the
  collection and every record whose id is not the path's, each at its index.
\<close>

theorem mutations_keep_other_records:
  "(post_assessments d body now day1 day2 = (d1, Response 201 stored) \<longrightarrow>
      (\<exists>xs. readJsonFile d AssessmentsJson = Inr (JArr xs)
          \<and> files d1 AssessmentsJson = Holds (JArr (xs @ [stored]))))
   \<and> (put_assessments e pid patch today = (e1, Response 200 merged) \<longrightarrow>
      (\<exists>xs ys. readJsonFile e AssessmentsJson = Inr (JArr xs)
          \<and> files e1 AssessmentsJson = Holds (JArr ys)
          \<and> length ys = length xs
          \<and> (\<forall>j<length xs. property (xs ! j) ''id'' \<noteq> Some (JStr pid) \<longrightarrow> ys ! j = xs ! j)))"
proof (intro conjI impI)
  assume "post_assessments d body now day1 day2 = (d1, Response 201 stored)"
  from post_try_201D [OF post_201_try [OF this]]
  obtain xs where xs: "readJsonFile d AssessmentsJson = Inr (JArr xs)"
    and d1: "d1 = d\<lparr>files := (files d)(AssessmentsJson := Holds (JArr (xs @ [stored])))\<rparr>"
    by blast
  from d1 have "files d1 AssessmentsJson = Holds (JArr (xs @ [stored]))"
    by simp
  with xs show "\<exists>xs. readJsonFile d AssessmentsJson = Inr (JArr xs)
          \<and> files d1 AssessmentsJson = Holds (JArr (xs @ [stored]))"
    by blast
next
  assume "put_assessments e pid patch today = (e1, Response 200 merged)"
  from put_try_200D [OF put_200_try [OF this]]
  obtain xs i where xs: "readJsonFile e AssessmentsJson = Inr (JArr xs)"
    and i: "findIndex (has_id pid) xs = Inr (Some i)"
    and e1: "e1 = e\<lparr>files := (files e)(AssessmentsJson := Holds (JArr (xs[i := merged])))\<rparr>"
    by blast
  from findIndex_Some [OF i] have "has_id pid (xs ! i) = Inr True"
    by simp
  then have at_i: "property (xs ! i) ''id'' = Some (JStr pid)"
    by (simp add: has_id_Inr)
  have stored: "files e1 AssessmentsJson = Holds (JArr (xs[i := merged]))"
    by (simp add: e1)
  have len: "length (xs[i := merged]) = length xs"
    by simp
  have frame: "\<forall>j<length xs. property (xs ! j) ''id'' \<noteq> Some (JStr pid) \<longrightarrow> xs[i := merged] ! j = xs ! j"
  proof (intro allI impI)
    fix j
    assume "j < length xs" and other: "property (xs ! j) ''id'' \<noteq> Some (JStr pid)"
    from at_i other have "i \<noteq> j" by auto
    then show "xs[i := merged] ! j = xs ! j" by simp
  qed
  from xs stored len frame
  show "\<exists>xs ys. readJsonFile e AssessmentsJson = Inr (JArr xs)
          \<and> files e1 AssessmentsJson = Holds (JArr ys)
          \<and> length ys = length xs
          \<and> (\<forall>j<length xs. property (xs ! j) ''id'' \<noteq> Some (JStr pid) \<longrightarrow> ys ! j = xs ! j)"
    by - (rule exI [of _ xs], rule exI [of _ "xs[i := merged]"], intro conjI, assumption+)
qed

lemma post_payroll_eval:
  "post_assessments sample_disk payroll_body 42 ''2026-11-03'' ''2026-11-03'' =
     (sample_disk\<lparr>files := (files sample_disk)(AssessmentsJson :=
          Holds (JArr ([other_record, original_record] @ [stamp payroll_body 42 ''2026-11-03'' ''2026-11-03''])))\<rparr>,
      Response 201 (stamp payroll_body 42 ''2026-11-03'' ''2026-11-03''))"
  by (rule post_ok) (simp_all add: readJsonFile_def sample_disk_def payroll_body_def)

theorem mutations_keep_other_records_witness:
  "post_assessments sample_disk payroll_body 42 ''2026-11-03'' ''2026-11-03'' =
     (sample_disk\<lparr>files := (files sample_disk)(AssessmentsJson :=
          Holds (JArr ([other_record, original_record] @ [stamp payroll_body 42 ''2026-11-03'' ''2026-11-03''])))\<rparr>,
      Response 201 (stamp payroll_body 42 ''2026-11-03'' ''2026-11-03''))
   \<and> (\<exists>xs. readJsonFile sample_disk AssessmentsJson = Inr (JArr xs)
          \<and> files (sample_disk\<lparr>files := (files sample_disk)(AssessmentsJson :=
                Holds (JArr ([other_record, original_record] @ [stamp payroll_body 42 ''2026-11-03'' ''2026-11-03''])))\<rparr>)
              AssessmentsJson = Holds (JArr (xs @ [stamp payroll_body 42 ''2026-11-03'' ''2026-11-03''])))
   \<and> put_assessments sample_disk ''1'' backdated_body ''2026-11-03'' =
        (updated_disk, Response 200 updated_record)
   \<and> readJsonFile sample_disk AssessmentsJson = Inr (JArr [other_record, original_record])
   \<and> property ([other_record, original_record] ! 0) ''id'' \<noteq> Some (JStr ''1'')
   \<and> (\<exists>ys. files updated_disk AssessmentsJson = Holds (JArr ys)
          \<and> length ys = length [other_record, original_record]
          \<and> ys ! 0 = [other_record, original_record] ! 0)"
proof -
  have read: "readJsonFile sample_disk AssessmentsJson = Inr (JArr [other_record, original_record])"
    by (simp add: readJsonFile_def sample_disk_def)
  have other: "property ([other_record, original_record] ! 0) ''id'' \<noteq> Some (JStr ''1'')"
    by (simp add: other_record_def)
  from mutations_keep_other_records [THEN conjunct2, THEN mp, OF put_backdated_eval]
  obtain xs ys where xs: "readJsonFile sample_disk AssessmentsJson = Inr (JArr xs)"
    and ys: "files updated_disk AssessmentsJson = Holds (JArr ys)"
    and len: "length ys = length xs"
    and frame: "\<forall>j<length xs. property (xs ! j) ''id'' \<noteq> Some (JStr ''1'') \<longrightarrow> ys ! j = xs ! j"
    by blast
  from xs read have eq: "xs = [other_record, original_record]"
    by simp
  from frame other have "ys ! 0 = [other_record, original_record] ! 0"
    unfolding eq by simp
  with ys len have put_frame: "\<exists>ys. files updated_disk AssessmentsJson = Holds (JArr ys)
          \<and> length ys = length [other_record, original_record]
          \<and> ys ! 0 = [other_record, original_record] ! 0"
    unfolding eq by blast
  from mutations_keep_other_records [THEN conjunct1, THEN mp, OF post_payroll_eval]
    post_payroll_eval put_backdated_eval read other put_frame
  show ?thesis
    by (intro conjI)
qed

section \<open>The client: search and row actions\<close>

lemma includes_js_sublist: "includes_js h k \<longleftrightarrow> sublist k h"
  by (induction h) (simp_all add: sublist_Cons_right)

lemma normalize_keyword: "normalize_js (Some (JStr kw)) = Inr (trim (toLowerCase kw))"
  by (simp add: normalize_js_def nullish_or_def)

lemma normalize_text:
  "is_text (property a k) \<Longrightarrow> normalize_js (property a k) = Inr (trim (toLowerCase (field_text a k)))"
  by (auto simp: is_text_def normalize_js_def nullish_or_def field_text_def
      split: option.splits json.splits)

lemma matchesKeyword_blank: "trim (toLowerCase kw) = [] \<Longrightarrow> matchesKeyword a kw = Inr True"
  by (simp add: matchesKeyword_def normalize_keyword)

lemma matchesKeyword_text_row:
  assumes "text_row a"
  shows "matchesKeyword a kw =
     Inr (trim (toLowerCase kw) = [] \<or>
          sublist (trim (toLowerCase kw))
            (join '' | '' (map (\<lambda>f. trim (toLowerCase (field_text a f)))
               [''processName'', ''content'', ''location''])))"
proof -
  from assms have nn: "a \<noteq> JNull"
    and t: "is_text (property a ''processName'')" "is_text (property a ''content'')"
      "is_text (property a ''location'')"
    by (simp_all add: text_row_def)
  show ?thesis
    by (simp add: matchesKeyword_def normalize_keyword member_not_null [OF nn]
        normalize_text [OF t(1)] normalize_text [OF t(2)] normalize_text [OF t(3)]
        includes_js_sublist)
qed

lemma filter_js_pure: "(\<forall>a\<in>set xs. p a = Inr (q a)) \<Longrightarrow> filter_js p xs = Inr (filter q xs)"
  by (induction xs) simp_all

lemma filter_js_all: "(\<forall>a\<in>set xs. p a = Inr True) \<Longrightarrow> filter_js p xs = Inr xs"
  by (induction xs) simp_all

lemmas client_eval =
  search_rows_def matchesKeyword_def alpha_row_def beta_row_def normalize_js_def
  nullish_or_def trim_def toLowerCase_def lower_char_def capitals_def smalls_def is_space_def

lemma search_alpha_beta_calgary: "search_rows [alpha_row, beta_row] ''calgary'' = Inr [alpha_row]"
  by (simp add: client_eval)

lemma search_alpha_beta_empty: "search_rows [alpha_row, beta_row] [] = Inr [alpha_row, beta_row]"
  by (simp add: client_eval)

text \<open>
  Claim C7, as the code has it. On rows whose \<^verbatim>\<open>processName\<close>, \<^verbatim>\<open>content\<close> and
  \<^verbatim>\<open>location\<close> are strings, \<^verbatim>\<open>null\<close> or absent, the search keeps exactly the rows
  for which the keyword, lowercased and trimmed, is empty or occurs in the three fields,
  each lowercased and trimmed, joined with \<^verbatim>\<open>" | "\<close>. A keyword that is empty or
  blank keeps every row of any list. On the specification's two rows, \<^verbatim>\<open>calgary\<close>
  keeps the first row only and the empty keyword keeps both.
\<close>

theorem search_rows_trimmed_keyword:
  assumes "\<forall>a\<in>set rows. text_row a"
  shows "search_rows rows kw =
           Inr (filter (\<lambda>a. trim (toLowerCase kw) = [] \<or>
                  sublist (trim (toLowerCase kw))
                    (join '' | '' (map (\<lambda>f. trim (toLowerCase (field_text a f)))
                       [''processName'', ''content'', ''location''])))
                rows)
       \<and> (trim (toLowerCase kw) = [] \<longrightarrow> search_rows others kw = Inr others)
       \<and> search_rows [alpha_row, beta_row] ''calgary'' = Inr [alpha_row]
       \<and> search_rows [alpha_row, beta_row] [] = Inr [alpha_row, beta_row]"
proof -
  let ?q = "\<lambda>a. trim (toLowerCase kw) = [] \<or>
                  sublist (trim (toLowerCase kw))
                    (join '' | '' (map (\<lambda>f. trim (toLowerCase (field_text a f)))
                       [''processName'', ''content'', ''location'']))"
  have "\<forall>a\<in>set rows. matchesKeyword a kw = Inr (?q a)"
  proof
    fix a
    assume "a \<in> set rows"
    with assms have "text_row a" by auto
    then show "matchesKeyword a kw = Inr (?q a)"
      by (rule matchesKeyword_text_row)
  qed
  then have main: "search_rows rows kw = Inr (filter ?q rows)"
    unfolding search_rows_def by (rule filter_js_pure)
  have blank: "trim (toLowerCase kw) = [] \<longrightarrow> search_rows others kw = Inr others"
    by (simp add: search_rows_def filter_js_all matchesKeyword_blank)
  from main blank search_alpha_beta_calgary search_alpha_beta_empty show ?thesis
    by (intro conjI)
qed

theorem search_rows_trimmed_keyword_witness:
  "text_row alpha_row \<and> text_row beta_row
   \<and> search_rows [alpha_row, beta_row] ''  RED deer '' =
        Inr (filter (\<lambda>a. trim (toLowerCase ''  RED deer '') = [] \<or>
                  sublist (trim (toLowerCase ''  RED deer ''))
                    (join '' | '' (map (\<lambda>f. trim (toLowerCase (field_text a f)))
                       [''processName'', ''content'', ''location''])))
                [alpha_row, beta_row])
   \<and> search_rows [alpha_row, beta_row] ''  RED deer '' = Inr [beta_row]
   \<and> trim (toLowerCase ''  '') = []
   \<and> search_rows [JNull, alpha_row] ''  '' = Inr [JNull, alpha_row]"
proof -
  have h1: "text_row alpha_row" and h2: "text_row beta_row"
    by (simp_all add: text_row_def is_text_def alpha_row_def beta_row_def)
  then have h: "\<forall>a\<in>set [alpha_row, beta_row]. text_row a"
    by simp
  have e: "search_rows [alpha_row, beta_row] ''  RED deer '' = Inr [beta_row]"
    by (simp add: client_eval)
  have blank: "trim (toLowerCase ''  '') = []"
    by (simp add: trim_def toLowerCase_def lower_char_def capitals_def smalls_def is_space_def)
  from search_rows_trimmed_keyword [OF h, of "''  ''" "[JNull, alpha_row]"] blank
  have all: "search_rows [JNull, alpha_row] ''  '' = Inr [JNull, alpha_row]"
    by blast
  from search_rows_trimmed_keyword [OF h, of "''  RED deer ''"]
  have main: "search_rows [alpha_row, beta_row] ''  RED deer '' =
        Inr (filter (\<lambda>a. trim (toLowerCase ''  RED deer '') = [] \<or>
                  sublist (trim (toLowerCase ''  RED deer ''))
                    (join '' | '' (map (\<lambda>f. trim (toLowerCase (field_text a f)))
                       [''processName'', ''content'', ''location''])))
                [alpha_row, beta_row])"
    by (rule conjunct1)
  from h1 h2 main e blank all show ?thesis
    by (intro conjI)
qed

text \<open>
  Claim C7, as the specification words it, fails on a keyword with a trailing space: the
  code trims it and keeps the Calgary row, while \<^verbatim>\<open>"calgary "\<close> is a substring neither
  of the fields' plain concatenation nor of their concatenation with \<^verbatim>\<open>" | "\<close>. The
  keyword \<^verbatim>\<open>|\<close> shows the separator: the code keeps the row, and no field holds a bar.
\<close>

theorem keyword_trailing_space_counterexample:
  "matchesKeyword alpha_row ''calgary '' = Inr True
   \<and> search_rows [alpha_row, beta_row] ''calgary '' = Inr [alpha_row]
   \<and> \<not> spec_matches [] alpha_row ''calgary ''
   \<and> \<not> spec_matches '' | '' alpha_row ''calgary ''
   \<and> matchesKeyword alpha_row ''|'' = Inr True
   \<and> \<not> spec_matches [] alpha_row ''|''"
  by (simp add: client_eval spec_matches_def field_text_def)

text \<open>
  What the status decides in the text of a row: the flag after the \<^verbatim>\<open>data-id\<close>
  attribute of Edit and of Submit. And a row whose content is a number has no
  \<^verbatim>\<open>slice\<close>: the loop stops there with the rows before it in the table.
\<close>

lemma row_html_status_flags:
  assumes "row_html a = Inr tr"
  shows "\<exists>data_id.
           sublist (button_html ''view'' data_id [] ''View'') tr
         \<and> sublist (button_html ''edit'' data_id
               ('' '' @ (if property a ''status'' = Some (JStr ''Approved'') then ''disabled'' else []))
               ''Edit'') tr
         \<and> sublist (button_html ''submit'' data_id
               ('' '' @ (if property a ''status'' = Some (JStr ''Draft'') then [] else ''disabled''))
               ''Submit'') tr"
proof -
  from assms have nn: "a \<noteq> JNull"
    by (auto simp: row_html_def member_def split: if_splits)
  from assms obtain data_id pre mid1 mid2 post where
    tr: "tr = pre @ button_html ''view'' data_id [] ''View''
          @ mid1 @ button_html ''edit'' data_id
               ('' '' @ (if property a ''status'' = Some (JStr ''Approved'') then ''disabled'' else []))
               ''Edit''
          @ mid2 @ button_html ''submit'' data_id
               ('' '' @ (if property a ''status'' = Some (JStr ''Draft'') then [] else ''disabled''))
               ''Submit'' @ post"
    unfolding row_html_def member_not_null [OF nn] bind_e_eq_Inr bind_e_Inr
    by (metis append.assoc sum.inject(2))
  show ?thesis
    unfolding tr sublist_def by (metis append.assoc)
qed

lemma renderTable_number_content_throws:
  "renderTable [original_record, JObj [(''id'', JStr ''2''), (''content'', JNum ''5'')]] =
     (fst (renderTable [original_record]), Some TypeError)
   \<and> snd (renderTable [original_record]) = None"
  by (simp add: renderTable_def row_html_def cell_text_def template_def nullish_or_def slice40_def
        original_record_def)

lemmas render_eval =
  renderTable_def row_html_def cell_text_def template_def nullish_or_def slice40_def
  longer_than_40_def button_html_def attr_def quoted_id_row_def quoted_id_def

text \<open>
  Claim C8, at a concrete row. The row is a Draft whose id is \<^verbatim>\<open>x" disabled y="\<close>.
  \<^verbatim>\<open>renderTable\<close> pastes the id into \<^verbatim>\<open>data-id="..."\<close> as it is, so the quote in
  the id ends the attribute and the tags of View, Edit and Submit all read
  \<^verbatim>\<open>data-id="x" disabled y=""\<close>: the three buttons carry \<^verbatim>\<open>disabled\<close> although the
  status is Draft. The enablement written by the status test itself is the empty flag
  after the attribute.
\<close>

theorem renderTable_quoted_id_disables:
  "property quoted_id_row ''status'' = Some (JStr ''Draft'')
   \<and> renderTable [quoted_id_row] = ([quoted_id_html], None)
   \<and> sublist quoted_id_view quoted_id_html
   \<and> sublist quoted_id_edit quoted_id_html
   \<and> sublist quoted_id_submit quoted_id_html
   \<and> sublist (''data-id='' @ dq @ ''x'' @ dq @ '' disabled y='' @ dq @ dq @ '' >Submit'') quoted_id_submit"
proof -
  have st: "property quoted_id_row ''status'' = Some (JStr ''Draft'')"
    by (simp add: quoted_id_row_def)
  have html: "renderTable [quoted_id_row] = ([quoted_id_html], None)"
    by (simp add: render_eval quoted_id_html_def quoted_id_view_def quoted_id_edit_def
        quoted_id_submit_def)
  have view: "sublist quoted_id_view quoted_id_html"
    unfolding quoted_id_html_def sublist_def by (metis append.assoc)
  have edit: "sublist quoted_id_edit quoted_id_html"
    unfolding quoted_id_html_def sublist_def by (metis append.assoc)
  have submit: "sublist quoted_id_submit quoted_id_html"
    unfolding quoted_id_html_def sublist_def by (metis append.assoc)
  have flag: "sublist (''data-id='' @ dq @ ''x'' @ dq @ '' disabled y='' @ dq @ dq @ '' >Submit'') quoted_id_submit"
    unfolding includes_js_sublist [symmetric] by (simp add: quoted_id_submit_def dq_def)
  from st html view edit submit flag show ?thesis
    by (intro conjI)
qed

end
